theory Spec2Isabelle
  imports Complex_Main
begin

section \<open>PDF Splitter Pro: shared types\<close>

text \<open>
  The enum \<open>SplitOrientation\<close> of \<open>types.ts\<close>. JavaScript numbers are modelled by
  exact real arithmetic (the rounding error of IEEE doubles is outside the model); page
  numbers and percentages reported by the preview are integers.
\<close>

datatype SplitOrientation = Vertical | Horizontal

text \<open>A browser \<open>File\<close>: the two attributes the application reads.\<close>

record js_file =
  file_name :: string
  file_type :: string

section \<open>The split service (\<open>splitPdfDocument\<close>)\<close>

text \<open>
  pdf-lib's view of a page: its content, which copying preserves, and its media box
  \<open>(x, y, width, height)\<close>. \<open>getSize\<close> reads the media box's width and height and
  \<open>setMediaBox x y width height\<close> replaces the box, as in pdf-lib.
\<close>

record media_box =
  mb_x :: real
  mb_y :: real
  mb_width :: real
  mb_height :: real

record pdf_page =
  page_content :: string
  mediaBox :: media_box

type_synonym pdf_document = "pdf_page list"

definition getSize :: "pdf_page \<Rightarrow> real \<times> real" where
  "getSize page = (mb_width (mediaBox page), mb_height (mediaBox page))"

definition setMediaBox :: "pdf_page \<Rightarrow> real \<Rightarrow> real \<Rightarrow> real \<Rightarrow> real \<Rightarrow> pdf_page" where
  "setMediaBox page x y w h =
     page\<lparr>mediaBox := \<lparr>mb_x = x, mb_y = y, mb_width = w, mb_height = h\<rparr>\<rparr>"

text \<open>The horizontal extent and the vertical extent a media box covers.\<close>

definition box_left :: "pdf_page \<Rightarrow> real" where
  "box_left page = mb_x (mediaBox page)"

definition box_right :: "pdf_page \<Rightarrow> real" where
  "box_right page = mb_x (mediaBox page) + mb_width (mediaBox page)"

definition box_bottom :: "pdf_page \<Rightarrow> real" where
  "box_bottom page = mb_y (mediaBox page)"

definition box_top :: "pdf_page \<Rightarrow> real" where
  "box_top page = mb_y (mediaBox page) + mb_height (mediaBox page)"

text \<open>
  One iteration of the \<open>for\<close> loop of \<open>splitPdfDocument\<close>: the page at \<open>pageIndex\<close> is
  copied twice, both copies are cropped, and the pair is what the two \<open>addPage\<close> calls
  append to the new document.
\<close>

definition splitPage :: "SplitOrientation \<Rightarrow> real \<Rightarrow> pdf_document \<Rightarrow> nat \<Rightarrow> pdf_page list" where
  "splitPage orientation percentage originalDoc pageIndex =
     (let page1 = originalDoc ! pageIndex;
          page2 = originalDoc ! pageIndex;
          (width, height) = getSize page1
      in if orientation = Vertical then
           (let splitX = width * (percentage / 100)
            in [setMediaBox page1 0 0 splitX height,
                setMediaBox page2 splitX 0 (width - splitX) height])
         else
           (let splitY = height * (percentage / 100)
            in [setMediaBox page1 0 splitY width (height - splitY),
                setMediaBox page2 0 0 width splitY]))"

text \<open>The loop over \<open>pageIndices\<close>, with the new document as the accumulator.\<close>

fun splitLoop ::
  "SplitOrientation \<Rightarrow> real \<Rightarrow> pdf_document \<Rightarrow> nat list \<Rightarrow> pdf_document \<Rightarrow> pdf_document" where
  "splitLoop orientation percentage originalDoc [] newDoc = newDoc"
| "splitLoop orientation percentage originalDoc (pageIndex # rest) newDoc =
     splitLoop orientation percentage originalDoc rest
       (newDoc @ splitPage orientation percentage originalDoc pageIndex)"

text \<open>
  \<open>splitPdfDocument\<close>. Decoding the file (\<open>PDFDocument.load\<close>) belongs to pdf-lib and is
  a parameter; it fails on bytes that are no document, and the function fails with it.
  The result is the new document that \<open>save\<close> serialises.
\<close>

definition splitPdfDocument ::
  "(js_file \<Rightarrow> pdf_document option) \<Rightarrow> js_file \<Rightarrow> SplitOrientation \<Rightarrow> real
     \<Rightarrow> pdf_document option" where
  "splitPdfDocument load file orientation percentage =
     (case load file of
        None \<Rightarrow> None
      | Some originalDoc \<Rightarrow>
          (let pageCount = length originalDoc;
               pageIndices = [0 ..< pageCount]
           in Some (splitLoop orientation percentage originalDoc pageIndices [])))"

text \<open>A four-page sample document (A4 and Letter pages) and a loader that decodes it.\<close>

definition sample_page :: "string \<Rightarrow> real \<Rightarrow> real \<Rightarrow> pdf_page" where
  "sample_page c w h =
     \<lparr>page_content = c, mediaBox = \<lparr>mb_x = 0, mb_y = 0, mb_width = w, mb_height = h\<rparr>\<rparr>"

definition sample_doc :: pdf_document where
  "sample_doc = [sample_page ''p1'' 600 800, sample_page ''p2'' 612 792,
                 sample_page ''p3'' 600 800, sample_page ''p4'' 612 792]"

definition sample_file :: js_file where
  "sample_file = \<lparr>file_name = ''sample.pdf'', file_type = ''application/pdf''\<rparr>"

definition sample_load :: "js_file \<Rightarrow> pdf_document option" where
  "sample_load f = (if f = sample_file then Some sample_doc else None)"


section \<open>The preview component (\<open>PdfPreview\<close>)\<close>

subsection \<open>JavaScript numbers at the division by the overlay's size\<close>

text \<open>
  The only place where the preview can leave the finite numbers is the division by the
  overlay's width or height: a division by zero gives an infinity or \<open>NaN\<close>. The
  operations below are those of the language on such values, with exact arithmetic on
  the finite ones. \<open>Math.round\<close> rounds a half upwards, which is \<open>round\<close>.
\<close>

datatype js_number = Finite real | PosInfinity | NegInfinity | NaN

definition js_div :: "real \<Rightarrow> real \<Rightarrow> js_number" where
  "js_div a b =
     (if b \<noteq> 0 then Finite (a / b)
      else if 0 < a then PosInfinity
      else if a < 0 then NegInfinity
      else NaN)"

fun js_times :: "js_number \<Rightarrow> real \<Rightarrow> js_number" where
  "js_times (Finite v) c = Finite (v * c)"
| "js_times PosInfinity c = (if 0 < c then PosInfinity else if c < 0 then NegInfinity else NaN)"
| "js_times NegInfinity c = (if 0 < c then NegInfinity else if c < 0 then PosInfinity else NaN)"
| "js_times NaN c = NaN"

fun Math_min :: "real \<Rightarrow> js_number \<Rightarrow> js_number" where
  "Math_min a (Finite v) = Finite (min a v)"
| "Math_min a PosInfinity = Finite a"
| "Math_min a NegInfinity = NegInfinity"
| "Math_min a NaN = NaN"

fun Math_max :: "real \<Rightarrow> js_number \<Rightarrow> js_number" where
  "Math_max a (Finite v) = Finite (max a v)"
| "Math_max a PosInfinity = PosInfinity"
| "Math_max a NegInfinity = Finite a"
| "Math_max a NaN = NaN"

fun Math_round :: "js_number \<Rightarrow> js_number" where
  "Math_round (Finite v) = Finite (of_int (round v))"
| "Math_round PosInfinity = PosInfinity"
| "Math_round NegInfinity = NegInfinity"
| "Math_round NaN = NaN"

subsection \<open>Dragging: \<open>calculatePercentage\<close>\<close>

record dom_rect =
  rect_left :: real
  rect_top :: real
  rect_width :: real
  rect_height :: real

text \<open>
  The first argument is \<open>overlayRef.current\<close>'s bounding rectangle, \<open>None\<close> while the
  overlay is not mounted. The result is the argument \<open>onPercentageChange\<close> is called
  with, \<open>None\<close> when the callback is not called.
\<close>

definition calculatePercentage ::
  "dom_rect option \<Rightarrow> SplitOrientation \<Rightarrow> real \<Rightarrow> real \<Rightarrow> js_number option" where
  "calculatePercentage overlay orientation clientX clientY =
     (case overlay of
        None \<Rightarrow> None
      | Some rect \<Rightarrow>
          (let newPercent =
                 (if orientation = Vertical then
                    (let x = clientX - rect_left rect
                     in js_times (js_div x (rect_width rect)) 100)
                  else
                    (let y = clientY - rect_top rect
                     in js_times (js_div y (rect_height rect)) 100));
               newPercent = Math_max 1 (Math_min 99 newPercent)
           in Some (Math_round newPercent)))"

text \<open>
  The translator as the specification words it: the fraction along the active axis,
  times 100, rounded to the nearest integer, then clamped to \<open>[1, 99]\<close>.
\<close>

definition spec_fraction :: "dom_rect \<Rightarrow> SplitOrientation \<Rightarrow> real \<Rightarrow> real \<Rightarrow> real" where
  "spec_fraction rect orientation clientX clientY =
     (if orientation = Vertical then (clientX - rect_left rect) / rect_width rect
      else (clientY - rect_top rect) / rect_height rect)"

definition spec_percentage :: "dom_rect \<Rightarrow> SplitOrientation \<Rightarrow> real \<Rightarrow> real \<Rightarrow> int" where
  "spec_percentage rect orientation clientX clientY =
     max 1 (min 99 (round (spec_fraction rect orientation clientX clientY * 100)))"

subsection \<open>Decimal strings: \<open>toString\<close>, \<open>parseInt\<close> and the digit test\<close>

definition is_digit :: "char \<Rightarrow> bool" where
  "is_digit c = (c \<in> set ''0123456789'')"

definition digit_char :: "nat \<Rightarrow> char" where
  "digit_char d = ''0123456789'' ! d"

definition digit_val :: "char \<Rightarrow> nat" where
  "digit_val c = length (takeWhile (\<lambda>d. d \<noteq> c) ''0123456789'')"

fun nat_toString :: "nat \<Rightarrow> string" where
  "nat_toString n =
     (if n < 10 then [digit_char n]
      else nat_toString (n div 10) @ [digit_char (n mod 10)])"

declare nat_toString.simps [simp del]

text \<open>\<open>Number.prototype.toString\<close> on an integer.\<close>

definition toString :: "int \<Rightarrow> string" where
  "toString i = (if i < 0 then CHR ''-'' # nat_toString (nat (- i)) else nat_toString (nat i))"

text \<open>
  \<open>parseInt(s, 10)\<close>: leading white space is skipped, one sign is accepted, and the
  longest run of digits that follows is the value; with no digit there the result is
  \<open>NaN\<close>, here \<open>None\<close>. White space is the ASCII part of what the language skips.
  The value is an unbounded integer: a double loses precision above \<open>2^53\<close>, which
  no comparison with a page count can observe.
\<close>

definition is_js_space :: "char \<Rightarrow> bool" where
  "is_js_space c = (c \<in> set [CHR '' '', CHR 0x09, CHR 0x0A, CHR 0x0B, CHR 0x0C, CHR 0x0D])"

definition digits_value :: "string \<Rightarrow> nat" where
  "digits_value ds = foldl (\<lambda>acc c. 10 * acc + digit_val c) 0 ds"

definition parseInt :: "string \<Rightarrow> int option" where
  "parseInt s =
     (let t = dropWhile is_js_space s;
          (sign, u) = (case t of
                         [] \<Rightarrow> (1, [])
                       | c # r \<Rightarrow> if c = CHR ''-'' then (- 1, r)
                                  else if c = CHR ''+'' then (1, r)
                                  else (1, t));
          ds = takeWhile is_digit u
      in if ds = [] then None else Some (sign * int (digits_value ds)))"

text \<open>The test of \<open>handlePageInputChange\<close>: the empty string, or \<open>/^\d+$/\<close>.\<close>

definition digits_only :: "string \<Rightarrow> bool" where
  "digits_only val = (val \<noteq> [] \<and> list_all is_digit val)"

definition input_accepted :: "string \<Rightarrow> bool" where
  "input_accepted val = (val = [] \<or> digits_only val)"

subsection \<open>The document handle of pdf.js and the canvas\<close>

text \<open>
  A loaded document: an identity and, for each page, its width and height at scale 1
  (a positive width). \<open>getPage\<close> rejects a page number outside \<open>1 .. numPages\<close>.
  Two handles are the same object exactly when they are equal as records.
\<close>

record pdfjs_doc =
  fingerprint :: string
  page_sizes :: "(real \<times> real) list"

definition numPages :: "pdfjs_doc \<Rightarrow> nat" where
  "numPages doc = length (page_sizes doc)"

definition getPage :: "pdfjs_doc \<Rightarrow> int \<Rightarrow> (real \<times> real) option" where
  "getPage doc n =
     (if 1 \<le> n \<and> n \<le> int (numPages doc) then Some (page_sizes doc ! nat (n - 1)) else None)"

text \<open>
  The canvas element: its size, whether \<open>getContext('2d')\<close> gives a context, and the
  page whose raster its bitmap holds (\<open>None\<close> for a blank bitmap). Assigning the width
  or the height of a canvas resets its bitmap.
\<close>

record canvas =
  canvas_width :: real
  canvas_height :: real
  has_context :: bool
  shown :: "(pdfjs_doc \<times> int) option"

definition clearRect_all :: "canvas \<Rightarrow> canvas" where
  "clearRect_all c = (if has_context c then c\<lparr>shown := None\<rparr> else c)"

definition set_height :: "canvas \<Rightarrow> real \<Rightarrow> canvas" where
  "set_height c h = c\<lparr>canvas_height := h, shown := None\<rparr>"

definition set_width :: "canvas \<Rightarrow> real \<Rightarrow> canvas" where
  "set_width c w = c\<lparr>canvas_width := w, shown := None\<rparr>"

subsection \<open>The component's state\<close>

text \<open>
  One record per call of \<open>loadPdf\<close> and per call of \<open>renderPage\<close>: what the closure
  captured and where it is suspended. A render has its own \<open>isCancelled\<close> flag; a load
  has none.
\<close>

record load_task =
  load_file :: js_file
  load_settled :: bool

datatype render_phase = AwaitingPage | Rendering | Finished

record render_task =
  rt_doc :: pdfjs_doc
  rt_page :: int
  isCancelled :: bool
  rt_phase :: render_phase

text \<open>
  The \<open>file\<close> prop, the \<open>useState\<close> cells, the two refs the effects read
  (\<open>canvasRef.current\<close>, and \<open>containerRef.current\<close>'s \<open>clientWidth\<close>), the
  suspended calls, and the render whose cleanup the render effect has returned. The
  refs are inputs: which elements are mounted follows from the JSX, which is outside
  the model.
\<close>

record preview =
  file_prop :: "js_file option"
  isLoading :: bool
  preview_error :: "string option"
  pdfDoc :: "pdfjs_doc option"
  currentPage :: int
  totalPages :: int
  pageInput :: string
  canvasRef :: "canvas option"
  containerRef :: "real option"
  loads :: "load_task list"
  renders :: "render_task list"
  cleanup :: "nat option"

subsection \<open>The effect on \<open>[file]\<close>: clearing, and \<open>loadPdf\<close>\<close>

definition file_effect_null :: "preview \<Rightarrow> preview" where
  "file_effect_null st =
     st\<lparr>pdfDoc := None, totalPages := 0, currentPage := 1, pageInput := ''1'',
        canvasRef := (case canvasRef st of
                        None \<Rightarrow> None
                      | Some c \<Rightarrow> Some (set_height (clearRect_all c) 0))\<rparr>"

definition loadPdf_start :: "js_file \<Rightarrow> preview \<Rightarrow> preview" where
  "loadPdf_start f st =
     st\<lparr>isLoading := True, preview_error := None,
        loads := loads st @ [\<lparr>load_file = f, load_settled = False\<rparr>]\<rparr>"

text \<open>
  The rest of \<open>loadPdf\<close>, run when \<open>arrayBuffer\<close> and \<open>getDocument\<close> have settled:
  with the document, or with \<open>None\<close> when one of them rejected. The \<open>finally\<close> block
  ends both branches.
\<close>

definition loadPdf_settle :: "pdfjs_doc option \<Rightarrow> preview \<Rightarrow> preview" where
  "loadPdf_settle outcome st =
     (case outcome of
        Some doc \<Rightarrow>
          st\<lparr>pdfDoc := Some doc, totalPages := int (numPages doc), currentPage := 1,
             isLoading := False\<rparr>
      | None \<Rightarrow>
          st\<lparr>preview_error :=
               Some ''Failed to load PDF. The file might be corrupted or incompatible.'',
             isLoading := False\<rparr>)"

definition file_effect :: "preview \<Rightarrow> preview" where
  "file_effect st =
     (case file_prop st of
        None \<Rightarrow> file_effect_null st
      | Some f \<Rightarrow> loadPdf_start f st)"

subsection \<open>The effect on \<open>[currentPage]\<close>\<close>

definition pageInput_effect :: "preview \<Rightarrow> preview" where
  "pageInput_effect st = st\<lparr>pageInput := toString (currentPage st)\<rparr>"

subsection \<open>The effect on \<open>[pdfDoc, currentPage]\<close>: \<open>renderPage\<close>\<close>

definition set_task :: "nat \<Rightarrow> render_task \<Rightarrow> preview \<Rightarrow> preview" where
  "set_task rid t st = st\<lparr>renders := (renders st)[rid := t]\<rparr>"

text \<open>The cleanup the effect returned sets the flag of its own call.\<close>

definition render_cleanup :: "preview \<Rightarrow> preview" where
  "render_cleanup st =
     (case cleanup st of
        None \<Rightarrow> st
      | Some rid \<Rightarrow> set_task rid ((renders st ! rid)\<lparr>isCancelled := True\<rparr>) st)"

text \<open>
  The effect body up to the first \<open>await\<close>: nothing without a document or a canvas,
  else a new call of \<open>renderPage\<close> that clears the error and waits for \<open>getPage\<close>.
\<close>

definition render_effect :: "preview \<Rightarrow> preview" where
  "render_effect st =
     (case pdfDoc st of
        None \<Rightarrow> st\<lparr>cleanup := None\<rparr>
      | Some doc \<Rightarrow>
          (case canvasRef st of
             None \<Rightarrow> st\<lparr>cleanup := None\<rparr>
           | Some c \<Rightarrow>
               st\<lparr>preview_error := None,
                  renders := renders st @
                    [\<lparr>rt_doc = doc, rt_page = currentPage st, isCancelled = False,
                      rt_phase = AwaitingPage\<rparr>],
                  cleanup := Some (length (renders st))\<rparr>))"

definition render_failed :: "nat \<Rightarrow> preview \<Rightarrow> preview" where
  "render_failed rid st =
     (let t = renders st ! rid;
          st = set_task rid (t\<lparr>rt_phase := Finished\<rparr>) st
      in if \<not> isCancelled t then st\<lparr>preview_error := Some ''Error rendering this page.''\<rparr>
         else st)"

text \<open>
  \<open>renderPage\<close> from the settling of \<open>getPage\<close> to the \<open>await\<close> of the render task:
  the flag is read once, then the canvas is resized and \<open>page.render\<close> is started.
\<close>

definition renderPage_gotPage :: "nat \<Rightarrow> preview \<Rightarrow> preview" where
  "renderPage_gotPage rid st =
     (let t = renders st ! rid
      in case getPage (rt_doc t) (rt_page t) of
           None \<Rightarrow> render_failed rid st
         | Some (pageWidth, pageHeight) \<Rightarrow>
             if isCancelled t then set_task rid (t\<lparr>rt_phase := Finished\<rparr>) st
             else
               (let containerWidth =
                      (case containerRef st of
                         None \<Rightarrow> 600
                       | Some w \<Rightarrow> if w = 0 then 600 else w);
                    scale = min ((containerWidth - 32) / pageWidth) 1.5
                in case canvasRef st of
                     None \<Rightarrow> set_task rid (t\<lparr>rt_phase := Finished\<rparr>) st
                   | Some c \<Rightarrow>
                       (let c = set_height c (pageHeight * scale);
                            c = set_width c (pageWidth * scale);
                            st = st\<lparr>canvasRef := Some c\<rparr>
                        in if has_context c
                           then set_task rid (t\<lparr>rt_phase := Rendering\<rparr>) st
                           else set_task rid (t\<lparr>rt_phase := Finished\<rparr>) st)))"

text \<open>
  The settling of the render task that \<open>page.render\<close> started. pdf.js paints into the
  context it was given while the task runs; when the task's promise fulfils the bitmap
  holds the page. \<open>renderPage\<close> has no statement after this \<open>await\<close>; a rejection goes
  to its \<open>catch\<close>.
\<close>

definition renderPage_rendered :: "nat \<Rightarrow> bool \<Rightarrow> preview \<Rightarrow> preview" where
  "renderPage_rendered rid ok st =
     (let t = renders st ! rid
      in if ok then
           set_task rid (t\<lparr>rt_phase := Finished\<rparr>)
             (st\<lparr>canvasRef := (case canvasRef st of
                                  None \<Rightarrow> None
                                | Some c \<Rightarrow> Some (c\<lparr>shown := Some (rt_doc t, rt_page t)\<rparr>))\<rparr>)
         else render_failed rid st)"

subsection \<open>Page navigation\<close>

definition handlePrevPage :: "preview \<Rightarrow> preview" where
  "handlePrevPage st =
     (if currentPage st > 1 then st\<lparr>currentPage := currentPage st - 1\<rparr> else st)"

definition handleNextPage :: "preview \<Rightarrow> preview" where
  "handleNextPage st =
     (if currentPage st < totalPages st then st\<lparr>currentPage := currentPage st + 1\<rparr> else st)"

definition handlePageInputChange :: "string \<Rightarrow> preview \<Rightarrow> preview" where
  "handlePageInputChange val st =
     (if val = [] \<or> digits_only val then st\<lparr>pageInput := val\<rparr> else st)"

definition handlePageInputSubmit :: "preview \<Rightarrow> preview" where
  "handlePageInputSubmit st =
     (case parseInt (pageInput st) of
        None \<Rightarrow> st\<lparr>pageInput := toString (currentPage st)\<rparr>
      | Some parsed \<Rightarrow>
          (let pageNum = (if parsed < 1 then 1 else parsed);
               pageNum = (if pageNum > totalPages st then totalPages st else pageNum)
           in st\<lparr>currentPage := pageNum, pageInput := toString pageNum\<rparr>))"

subsection \<open>Events, and the effects React runs after each\<close>

text \<open>
  What can happen to a mounted preview: the parent passes another file, a suspended
  \<open>loadPdf\<close> or \<open>renderPage\<close> resumes, or the user acts on the page controls. An event
  that names a call which is not suspended there does nothing.
\<close>

datatype event =
    SetFile "js_file option"
  | LoadSettled nat "pdfjs_doc option"
  | GetPageSettled nat
  | RenderSettled nat bool
  | ClickPrev
  | ClickNext
  | PageInputChange string
  | PageInputCommit

fun handle :: "event \<Rightarrow> preview \<Rightarrow> preview" where
  "handle (SetFile f) st = file_effect (st\<lparr>file_prop := f\<rparr>)"
| "handle (LoadSettled lid outcome) st =
     (if lid < length (loads st) \<and> \<not> load_settled (loads st ! lid)
      then loadPdf_settle outcome
             (st\<lparr>loads := (loads st)[lid := (loads st ! lid)\<lparr>load_settled := True\<rparr>]\<rparr>)
      else st)"
| "handle (GetPageSettled rid) st =
     (if rid < length (renders st) \<and> rt_phase (renders st ! rid) = AwaitingPage
      then renderPage_gotPage rid st else st)"
| "handle (RenderSettled rid ok) st =
     (if rid < length (renders st) \<and> rt_phase (renders st ! rid) = Rendering
      then renderPage_rendered rid ok st else st)"
| "handle ClickPrev st = handlePrevPage st"
| "handle ClickNext st = handleNextPage st"
| "handle (PageInputChange val) st = handlePageInputChange val st"
| "handle PageInputCommit st = handlePageInputSubmit st"

text \<open>
  After the state has changed React re-renders and runs, in the order of the source, the
  effects one of whose dependencies changed: the buffer's synchronisation on
  \<open>currentPage\<close>, and the render effect on \<open>pdfDoc\<close> or \<open>currentPage\<close>, the cleanup of
  its previous run first.
\<close>

definition run_effects :: "preview \<Rightarrow> preview \<Rightarrow> preview" where
  "run_effects old new =
     (let st = (if currentPage new \<noteq> currentPage old then pageInput_effect new else new)
      in if pdfDoc new \<noteq> pdfDoc old \<or> currentPage new \<noteq> currentPage old
         then render_effect (render_cleanup st) else st)"

definition step :: "event \<Rightarrow> preview \<Rightarrow> preview" where
  "step e st = run_effects st (handle e st)"

fun run :: "event list \<Rightarrow> preview \<Rightarrow> preview" where
  "run [] st = st"
| "run (e # es) st = run es (step e st)"

text \<open>Mounting: the initial \<open>useState\<close> values, then every effect once.\<close>

definition initial :: "js_file option \<Rightarrow> canvas option \<Rightarrow> real option \<Rightarrow> preview" where
  "initial f cv cw =
     \<lparr>file_prop = f, isLoading = False, preview_error = None, pdfDoc = None,
      currentPage = 1, totalPages = 0, pageInput = ''1'', canvasRef = cv,
      containerRef = cw, loads = [], renders = [], cleanup = None\<rparr>"

definition mount :: "js_file option \<Rightarrow> canvas option \<Rightarrow> real option \<Rightarrow> preview" where
  "mount f cv cw = render_effect (pageInput_effect (file_effect (initial f cv cw)))"

subsection \<open>The invariant of the page fields\<close>

text \<open>
  The buffer holds the empty string or digits, and neither page number is negative.
\<close>

definition page_state_ok :: "preview \<Rightarrow> bool" where
  "page_state_ok st =
     (input_accepted (pageInput st) \<and> 0 \<le> currentPage st \<and> 0 \<le> totalPages st)"

section \<open>The application (\<open>App\<close>)\<close>

record ProcessingStatus =
  isProcessing :: bool
  error :: "string option"
  successMessage :: "string option"

record app_state =
  app_file :: "js_file option"
  app_orientation :: SplitOrientation
  app_percentage :: js_number
  app_status :: ProcessingStatus

text \<open>
  \<open>handleFileChange\<close>; the argument is \<open>e.target.files\<close>, which may be null or empty.
\<close>

definition handleFileChange :: "js_file list option \<Rightarrow> app_state \<Rightarrow> app_state" where
  "handleFileChange files st =
     (case files of
        None \<Rightarrow> st
      | Some [] \<Rightarrow> st
      | Some (selectedFile # others) \<Rightarrow>
          if file_type selectedFile \<noteq> ''application/pdf'' then
            st\<lparr>app_status := (app_status st)\<lparr>error := Some ''Please upload a valid PDF file.'',
                                              successMessage := None\<rparr>\<rparr>
          else
            st\<lparr>app_file := Some selectedFile,
               app_status := \<lparr>isProcessing = False, error = None, successMessage = None\<rparr>,
               app_percentage := Finite 50\<rparr>)"

section \<open>Sample inputs\<close>

definition sample_rect :: dom_rect where
  "sample_rect = \<lparr>rect_left = 100, rect_top = 50, rect_width = 400, rect_height = 300\<rparr>"

definition sample_canvas :: canvas where
  "sample_canvas =
     \<lparr>canvas_width = 300, canvas_height = 150, has_context = True, shown = None\<rparr>"

definition docA :: pdfjs_doc where
  "docA = \<lparr>fingerprint = ''A'', page_sizes = [(600, 800), (600, 800), (600, 800)]\<rparr>"

definition docB :: pdfjs_doc where
  "docB = \<lparr>fingerprint = ''B'', page_sizes = [(612, 792), (612, 792)]\<rparr>"

definition docTen :: pdfjs_doc where
  "docTen = \<lparr>fingerprint = ''T'', page_sizes = replicate 10 (600, 800)\<rparr>"

definition fileA :: js_file where
  "fileA = \<lparr>file_name = ''a.pdf'', file_type = ''application/pdf''\<rparr>"

definition fileB :: js_file where
  "fileB = \<lparr>file_name = ''b.pdf'', file_type = ''application/pdf''\<rparr>"

definition textFile :: js_file where
  "textFile = \<lparr>file_name = ''notes.txt'', file_type = ''text/plain''\<rparr>"

text \<open>A preview on page 3 of a 10-page document, with \<open>15\<close> typed in the buffer.\<close>

definition sample_preview :: preview where
  "sample_preview =
     \<lparr>file_prop = Some fileA, isLoading = False, preview_error = None, pdfDoc = Some docTen,
      currentPage = 3, totalPages = 10, pageInput = ''15'', canvasRef = Some sample_canvas,
      containerRef = Some 800, loads = [], renders = [], cleanup = None\<rparr>"

definition sample_app :: app_state where
  "sample_app =
     \<lparr>app_file = Some fileA, app_orientation = Horizontal, app_percentage = Finite 30,
      app_status = \<lparr>isProcessing = False, error = None,
                     successMessage = Some ''done''\<rparr>\<rparr>"

text \<open>
  An interleaving on a preview mounted with \<open>a.pdf\<close>: the document is loaded, the
  render of page 1 has passed \<open>getPage\<close> and started its render task, and the user
  clicks Next before that task settles.
\<close>

definition next_while_rendering :: preview where
  "next_while_rendering =
     run [LoadSettled 0 (Some docA), GetPageSettled 0, ClickNext, RenderSettled 0 True]
       (mount (Some fileA) (Some sample_canvas) (Some 800))"

section \<open>The application and its preview together\<close>

text \<open>
  \<open>App\<close> renders the file input only while \<open>file\<close> is null and \<open>PdfPreview\<close> only
  inside \<open>{file && ...}\<close>. The file changes in two ways: \<open>handleFileChange\<close>, from
  that input, and \<open>setFile(null)\<close>, from the two controls beside the file's name. So
  choosing a file mounts a new preview, and removing the file unmounts it. The calls of
  \<open>loadPdf\<close> an unmounted preview left suspended still resume later; React drops the
  state updates of an unmounted component, so all they change here is that they have
  settled.
\<close>

record program =
  app :: app_state
  mounted :: "preview option"
  retired :: "load_task list"

text \<open>
  \<open>ChooseFiles\<close> carries the refs the new preview finds. \<open>Preview\<close> is an event of the
  mounted preview, \<open>RetiredLoadSettled\<close> the settling of a load that an unmounted one
  started. The last three are the other state cells of \<open>App\<close>.
\<close>

datatype program_event =
    ChooseFiles "js_file list option" "canvas option" "real option"
  | RemoveFile
  | Preview event
  | RetiredLoadSettled nat "pdfjs_doc option"
  | SetOrientation SplitOrientation
  | SetPercentage js_number
  | SetStatus ProcessingStatus

text \<open>
  Which events a mounted preview can meet. \<open>App\<close> never passes it another file, and
  a load settles with what \<open>arrayBuffer\<close> and \<open>getDocument\<close> give for the file it reads,
  the parameter \<open>decode\<close>.
\<close>

fun possible :: "(js_file \<Rightarrow> pdfjs_doc option) \<Rightarrow> preview \<Rightarrow> event \<Rightarrow> bool" where
  "possible decode v (SetFile f) = False"
| "possible decode v (LoadSettled lid outcome) =
     (lid < length (loads v) \<and> outcome = decode (load_file (loads v ! lid)))"
| "possible decode v e = True"

fun pstep ::
  "(js_file \<Rightarrow> pdfjs_doc option) \<Rightarrow> program_event \<Rightarrow> program \<Rightarrow> program" where
  "pstep decode (ChooseFiles files cv cw) P =
     (if app_file (app P) \<noteq> None then P
      else
        (let a = handleFileChange files (app P)
         in P\<lparr>app := a,
              mounted := (case app_file a of
                            None \<Rightarrow> None
                          | Some f \<Rightarrow> Some (mount (Some f) cv cw))\<rparr>))"
| "pstep decode RemoveFile P =
     (if app_file (app P) = None then P
      else
        P\<lparr>app := (app P)\<lparr>app_file := None\<rparr>,
          mounted := None,
          retired := retired P @
            (case mounted P of
               None \<Rightarrow> []
             | Some v \<Rightarrow> filter (\<lambda>t. \<not> load_settled t) (loads v))\<rparr>)"
| "pstep decode (Preview e) P =
     (case mounted P of
        None \<Rightarrow> P
      | Some v \<Rightarrow> if possible decode v e then P\<lparr>mounted := Some (step e v)\<rparr> else P)"
| "pstep decode (RetiredLoadSettled k outcome) P =
     (if k < length (retired P) \<and> \<not> load_settled (retired P ! k)
      then P\<lparr>retired := (retired P)[k := (retired P ! k)\<lparr>load_settled := True\<rparr>]\<rparr>
      else P)"
| "pstep decode (SetOrientation orientation) P =
     P\<lparr>app := (app P)\<lparr>app_orientation := orientation\<rparr>\<rparr>"
| "pstep decode (SetPercentage n) P = P\<lparr>app := (app P)\<lparr>app_percentage := n\<rparr>\<rparr>"
| "pstep decode (SetStatus s) P = P\<lparr>app := (app P)\<lparr>app_status := s\<rparr>\<rparr>"

fun prun ::
  "(js_file \<Rightarrow> pdfjs_doc option) \<Rightarrow> program_event list \<Rightarrow> program \<Rightarrow> program" where
  "prun decode [] P = P"
| "prun decode (ev # evs) P = prun decode evs (pstep decode ev P)"

text \<open>The initial \<open>useState\<close> values of \<open>App\<close>; no preview is mounted.\<close>

definition initial_program :: program where
  "initial_program =
     \<lparr>app = \<lparr>app_file = None, app_orientation = Vertical, app_percentage = Finite 50,
             app_status = \<lparr>isProcessing = False, error = None, successMessage = None\<rparr>\<rparr>,
      mounted = None, retired = []\<rparr>"

text \<open>
  A preview of the file \<open>f\<close> is in order when \<open>f\<close> is its prop, every load it started
  reads \<open>f\<close>, and its document and page count are absent or those of \<open>f\<close>. A program is
  in order when a preview is mounted exactly while a file is chosen, and that preview
  is in order for that file.
\<close>

definition instance_ok :: "(js_file \<Rightarrow> pdfjs_doc option) \<Rightarrow> js_file \<Rightarrow> preview \<Rightarrow> bool" where
  "instance_ok decode f v =
     (file_prop v = Some f \<and>
      list_all (\<lambda>t. load_file t = f) (loads v) \<and>
      (case pdfDoc v of
         None \<Rightarrow> totalPages v = 0
       | Some d \<Rightarrow> decode f = Some d \<and> totalPages v = int (numPages d)))"

definition program_ok :: "(js_file \<Rightarrow> pdfjs_doc option) \<Rightarrow> program \<Rightarrow> bool" where
  "program_ok decode P =
     (case mounted P of
        None \<Rightarrow> app_file (app P) = None
      | Some v \<Rightarrow>
          (case app_file (app P) of
             None \<Rightarrow> False
           | Some f \<Rightarrow> instance_ok decode f v))"

text \<open>
  A decoder for the two sample files, and a session: \<open>a.pdf\<close> is chosen and removed
  while it loads, \<open>b.pdf\<close> is chosen, the load of \<open>a.pdf\<close> settles, then the load of
  \<open>b.pdf\<close>.
\<close>

definition sample_decode :: "js_file \<Rightarrow> pdfjs_doc option" where
  "sample_decode f =
     (if f = fileA then Some docA else if f = fileB then Some docB else None)"

definition replace_session :: "program_event list" where
  "replace_session =
     [ChooseFiles (Some [fileA]) (Some sample_canvas) (Some 800),
      RemoveFile,
      ChooseFiles (Some [fileB]) (Some sample_canvas) (Some 800),
      RetiredLoadSettled 0 (Some docA),
      Preview (LoadSettled 0 (Some docB))]"
section \<open>Properties of the split service\<close>

lemma splitPage_length: "length (splitPage orientation percentage doc i) = 2"
  by (simp add: splitPage_def Let_def split: prod.splits)

lemma splitLoop_append:
  "splitLoop orientation percentage doc is acc =
     acc @ concat (map (splitPage orientation percentage doc) is)"
  by (induction "is" arbitrary: acc) simp_all

lemma concat_pairs_length:
  "(\<And>x. length (f x) = 2) \<Longrightarrow> length (concat (map f xs)) = 2 * length xs"
  by (induction xs) simp_all

lemma concat_pairs_nth:
  "(\<And>x. length (f x) = 2) \<Longrightarrow> i < length xs \<Longrightarrow>
     concat (map f xs) ! (2 * i) = f (xs ! i) ! 0 \<and>
     concat (map f xs) ! (2 * i + 1) = f (xs ! i) ! 1"
proof (induction xs arbitrary: i)
  case Nil
  then show ?case by simp
next
  case (Cons x xs)
  show ?case
  proof (cases i)
    case 0
    with Cons.prems(1) [of x] show ?thesis by (simp add: nth_append)
  next
    case (Suc j)
    with Cons.prems have j: "j < length xs" by simp
    have "concat (map f xs) ! (2 * j) = f (xs ! j) ! 0 \<and>
          concat (map f xs) ! (2 * j + 1) = f (xs ! j) ! 1"
      using Cons.IH [OF Cons.prems(1) j] .
    with Suc Cons.prems(1) [of x] show ?thesis by (simp add: nth_append)
  qed
qed

lemma splitPdfDocument_pages:
  assumes "load file = Some doc"
  shows "\<exists>out. splitPdfDocument load file orientation percentage = Some out \<and>
           length out = 2 * length doc \<and>
           (\<forall>i < length doc.
              out ! (2 * i) = splitPage orientation percentage doc i ! 0 \<and>
              out ! (2 * i + 1) = splitPage orientation percentage doc i ! 1)"
proof -
  let ?f = "splitPage orientation percentage doc"
  let ?out = "concat (map ?f [0 ..< length doc])"
  have out: "splitPdfDocument load file orientation percentage = Some ?out"
    using assms by (simp add: splitPdfDocument_def splitLoop_append)
  have len: "length ?out = 2 * length doc"
    using concat_pairs_length [of ?f "[0 ..< length doc]"] by (simp add: splitPage_length)
  have nth: "?out ! (2 * i) = ?f i ! 0 \<and> ?out ! (2 * i + 1) = ?f i ! 1"
    if "i < length doc" for i
    using concat_pairs_nth [of ?f i "[0 ..< length doc]"] that
    by (simp add: splitPage_length)
  from out len nth show ?thesis by blast
qed


lemma splitPage_Vertical:
  "splitPage Vertical p doc i =
     [setMediaBox (doc ! i) 0 0 (mb_width (mediaBox (doc ! i)) * (p / 100))
        (mb_height (mediaBox (doc ! i))),
      setMediaBox (doc ! i) (mb_width (mediaBox (doc ! i)) * (p / 100)) 0
        (mb_width (mediaBox (doc ! i)) - mb_width (mediaBox (doc ! i)) * (p / 100))
        (mb_height (mediaBox (doc ! i)))]"
  by (simp add: splitPage_def getSize_def Let_def)

lemma splitPage_Horizontal:
  "splitPage Horizontal p doc i =
     [setMediaBox (doc ! i) 0 (mb_height (mediaBox (doc ! i)) * (p / 100))
        (mb_width (mediaBox (doc ! i)))
        (mb_height (mediaBox (doc ! i)) - mb_height (mediaBox (doc ! i)) * (p / 100)),
      setMediaBox (doc ! i) 0 0 (mb_width (mediaBox (doc ! i)))
        (mb_height (mediaBox (doc ! i)) * (p / 100))]"
  by (simp add: splitPage_def getSize_def Let_def)

text \<open>
  Claim C1. For a document of \<open>N \<ge> 1\<close> pages, a percentage \<open>p\<close> in \<open>[1, 99]\<close> and the
  Vertical orientation, \<open>splitPdfDocument\<close> returns \<open>2N\<close> pages in the order left, right,
  left, right, ...: for the original page \<open>i\<close> of width \<open>w\<close> and height \<open>h\<close>, output page
  \<open>2i\<close> is a copy whose media box spans \<open>x\<close> from \<open>0\<close> to \<open>(p/100) w\<close>, output page
  \<open>2i + 1\<close> is a copy whose media box spans \<open>x\<close> from \<open>(p/100) w\<close> to \<open>w\<close>, and both
  keep the height \<open>h\<close>. A 4-page document at percentage 30 gives 8 pages, the first of
  width \<open>0.30 w\<close> and the second of width \<open>0.70 w\<close>.
\<close>

theorem splitPdfDocument_vertical:
  assumes "load file = Some doc" and "1 \<le> length doc" and "1 \<le> p" and "p \<le> 99"
  shows "\<exists>out. splitPdfDocument load file Vertical p = Some out \<and>
           length out = 2 * length doc \<and>
           (\<forall>i < length doc.
              page_content (out ! (2 * i)) = page_content (doc ! i) \<and>
              page_content (out ! (2 * i + 1)) = page_content (doc ! i) \<and>
              box_left (out ! (2 * i)) = 0 \<and>
              box_right (out ! (2 * i)) = (p / 100) * mb_width (mediaBox (doc ! i)) \<and>
              box_left (out ! (2 * i + 1)) = (p / 100) * mb_width (mediaBox (doc ! i)) \<and>
              box_right (out ! (2 * i + 1)) = mb_width (mediaBox (doc ! i)) \<and>
              mb_height (mediaBox (out ! (2 * i))) = mb_height (mediaBox (doc ! i)) \<and>
              mb_height (mediaBox (out ! (2 * i + 1))) = mb_height (mediaBox (doc ! i))) \<and>
           (length doc = 4 \<and> p = 30 \<longrightarrow>
              length out = 8 \<and>
              mb_width (mediaBox (out ! 0)) = 0.30 * mb_width (mediaBox (doc ! 0)) \<and>
              mb_width (mediaBox (out ! 1)) = 0.70 * mb_width (mediaBox (doc ! 0)))"
proof -
  from splitPdfDocument_pages [of load "file" doc Vertical p] assms(1)
  obtain out where out: "splitPdfDocument load file Vertical p = Some out"
    and len: "length out = 2 * length doc"
    and nth: "\<And>i. i < length doc \<Longrightarrow>
                out ! (2 * i) = splitPage Vertical p doc i ! 0 \<and>
                out ! (2 * i + 1) = splitPage Vertical p doc i ! 1"
    by blast
  have pages: "page_content (out ! (2 * i)) = page_content (doc ! i) \<and>
      page_content (out ! (2 * i + 1)) = page_content (doc ! i) \<and>
      box_left (out ! (2 * i)) = 0 \<and>
      box_right (out ! (2 * i)) = (p / 100) * mb_width (mediaBox (doc ! i)) \<and>
      box_left (out ! (2 * i + 1)) = (p / 100) * mb_width (mediaBox (doc ! i)) \<and>
      box_right (out ! (2 * i + 1)) = mb_width (mediaBox (doc ! i)) \<and>
      mb_height (mediaBox (out ! (2 * i))) = mb_height (mediaBox (doc ! i)) \<and>
      mb_height (mediaBox (out ! (2 * i + 1))) = mb_height (mediaBox (doc ! i))"
    if "i < length doc" for i
    using nth [OF that]
    by (simp add: splitPage_Vertical setMediaBox_def box_left_def box_right_def)
  have special: "length out = 8 \<and>
      mb_width (mediaBox (out ! 0)) = 0.30 * mb_width (mediaBox (doc ! 0)) \<and>
      mb_width (mediaBox (out ! 1)) = 0.70 * mb_width (mediaBox (doc ! 0))"
    if "length doc = 4" and "p = 30"
  proof -
    from that have "0 < length doc" by simp
    from nth [OF this] that len show ?thesis
      by (simp add: splitPage_Vertical setMediaBox_def algebra_simps)
  qed
  from out len pages special show ?thesis by blast
qed

theorem splitPdfDocument_vertical_witness:
  "\<exists>out. splitPdfDocument sample_load sample_file Vertical 30 = Some out \<and>
     length out = 8 \<and>
     box_left (out ! 0) = 0 \<and> box_right (out ! 0) = 180 \<and>
     box_left (out ! 1) = 180 \<and> box_right (out ! 1) = 600 \<and>
     mb_width (mediaBox (out ! 0)) = 180 \<and> mb_width (mediaBox (out ! 1)) = 420 \<and>
     mb_height (mediaBox (out ! 0)) = 800 \<and> mb_height (mediaBox (out ! 1)) = 800 \<and>
     box_left (out ! 6) = 0 \<and> box_right (out ! 6) = 183.6 \<and>
     box_left (out ! 7) = 183.6 \<and> box_right (out ! 7) = 612"
proof -
  have l: "sample_load sample_file = Some sample_doc" by (simp add: sample_load_def)
  have n: "1 \<le> length sample_doc" by (simp add: sample_doc_def)
  have n4: "length sample_doc = 4" by (simp add: sample_doc_def)
  have p: "(1::real) \<le> 30" "(30::real) \<le> 99" by simp_all
  from splitPdfDocument_vertical [of sample_load sample_file sample_doc 30] l n p
  obtain out where out: "splitPdfDocument sample_load sample_file Vertical 30 = Some out"
    and len: "length out = 2 * length sample_doc"
    and nth: "\<forall>i < length sample_doc.
              page_content (out ! (2 * i)) = page_content (sample_doc ! i) \<and>
              page_content (out ! (2 * i + 1)) = page_content (sample_doc ! i) \<and>
              box_left (out ! (2 * i)) = 0 \<and>
              box_right (out ! (2 * i)) = (30 / 100) * mb_width (mediaBox (sample_doc ! i)) \<and>
              box_left (out ! (2 * i + 1)) = (30 / 100) * mb_width (mediaBox (sample_doc ! i)) \<and>
              box_right (out ! (2 * i + 1)) = mb_width (mediaBox (sample_doc ! i)) \<and>
              mb_height (mediaBox (out ! (2 * i))) = mb_height (mediaBox (sample_doc ! i)) \<and>
              mb_height (mediaBox (out ! (2 * i + 1))) = mb_height (mediaBox (sample_doc ! i))"
    and special: "length sample_doc = 4 \<and> (30::real) = 30 \<longrightarrow>
              length out = 8 \<and>
              mb_width (mediaBox (out ! 0)) = 0.30 * mb_width (mediaBox (sample_doc ! 0)) \<and>
              mb_width (mediaBox (out ! 1)) = 0.70 * mb_width (mediaBox (sample_doc ! 0))"
    by blast
  have i0: "(0::nat) < length sample_doc" and i3: "(3::nat) < length sample_doc"
    by (simp_all add: sample_doc_def)
  from nth i0 have a: "box_left (out ! 0) = 0 \<and> box_right (out ! 0) = 180 \<and>
     box_left (out ! 1) = 180 \<and> box_right (out ! 1) = 600 \<and>
     mb_height (mediaBox (out ! 0)) = 800 \<and> mb_height (mediaBox (out ! 1)) = 800"
    by (auto simp: sample_doc_def sample_page_def)
  from nth [rule_format, OF i3] have b: "box_left (out ! 6) = 0 \<and> box_right (out ! 6) = 183.6 \<and>
     box_left (out ! 7) = 183.6 \<and> box_right (out ! 7) = 612"
    by (simp add: sample_doc_def sample_page_def)
  from special n4 have c: "length out = 8 \<and>
     mb_width (mediaBox (out ! 0)) = 180 \<and> mb_width (mediaBox (out ! 1)) = 420"
    by (simp add: sample_doc_def sample_page_def)
  from out a b c show ?thesis by blast
qed

text \<open>
  Claim C2. For a page of width \<open>w\<close> and height \<open>H\<close>, a percentage \<open>p\<close> in \<open>[1, 99]\<close> and
  the Horizontal orientation, \<open>splitPdfDocument\<close> emits first the top region, whose
  media box spans \<open>y\<close> from \<open>splitY = (p/100) H\<close> to \<open>H\<close> (height \<open>H - splitY\<close>), then
  the bottom region, spanning \<open>y\<close> from \<open>0\<close> to \<open>splitY\<close> (height \<open>splitY\<close>), both with
  the width \<open>w\<close>. At percentage 70 the top region has height \<open>0.30 H\<close> and the bottom
  region height \<open>0.70 H\<close>.
\<close>

theorem splitPdfDocument_horizontal:
  assumes "load file = Some doc" and "1 \<le> p" and "p \<le> 99"
  shows "\<exists>out. splitPdfDocument load file Horizontal p = Some out \<and>
           length out = 2 * length doc \<and>
           (\<forall>i < length doc.
              page_content (out ! (2 * i)) = page_content (doc ! i) \<and>
              page_content (out ! (2 * i + 1)) = page_content (doc ! i) \<and>
              box_bottom (out ! (2 * i)) = (p / 100) * mb_height (mediaBox (doc ! i)) \<and>
              box_top (out ! (2 * i)) = mb_height (mediaBox (doc ! i)) \<and>
              mb_height (mediaBox (out ! (2 * i))) =
                mb_height (mediaBox (doc ! i)) - (p / 100) * mb_height (mediaBox (doc ! i)) \<and>
              box_bottom (out ! (2 * i + 1)) = 0 \<and>
              box_top (out ! (2 * i + 1)) = (p / 100) * mb_height (mediaBox (doc ! i)) \<and>
              mb_height (mediaBox (out ! (2 * i + 1))) =
                (p / 100) * mb_height (mediaBox (doc ! i)) \<and>
              mb_width (mediaBox (out ! (2 * i))) = mb_width (mediaBox (doc ! i)) \<and>
              mb_width (mediaBox (out ! (2 * i + 1))) = mb_width (mediaBox (doc ! i)) \<and>
              (p = 70 \<longrightarrow>
                 mb_height (mediaBox (out ! (2 * i))) = 0.30 * mb_height (mediaBox (doc ! i)) \<and>
                 mb_height (mediaBox (out ! (2 * i + 1))) =
                   0.70 * mb_height (mediaBox (doc ! i))))"
proof -
  from splitPdfDocument_pages [of load "file" doc Horizontal p] assms(1)
  obtain out where out: "splitPdfDocument load file Horizontal p = Some out"
    and len: "length out = 2 * length doc"
    and nth: "\<And>i. i < length doc \<Longrightarrow>
                out ! (2 * i) = splitPage Horizontal p doc i ! 0 \<and>
                out ! (2 * i + 1) = splitPage Horizontal p doc i ! 1"
    by blast
  have pages: "page_content (out ! (2 * i)) = page_content (doc ! i) \<and>
      page_content (out ! (2 * i + 1)) = page_content (doc ! i) \<and>
      box_bottom (out ! (2 * i)) = (p / 100) * mb_height (mediaBox (doc ! i)) \<and>
      box_top (out ! (2 * i)) = mb_height (mediaBox (doc ! i)) \<and>
      mb_height (mediaBox (out ! (2 * i))) =
        mb_height (mediaBox (doc ! i)) - (p / 100) * mb_height (mediaBox (doc ! i)) \<and>
      box_bottom (out ! (2 * i + 1)) = 0 \<and>
      box_top (out ! (2 * i + 1)) = (p / 100) * mb_height (mediaBox (doc ! i)) \<and>
      mb_height (mediaBox (out ! (2 * i + 1))) = (p / 100) * mb_height (mediaBox (doc ! i)) \<and>
      mb_width (mediaBox (out ! (2 * i))) = mb_width (mediaBox (doc ! i)) \<and>
      mb_width (mediaBox (out ! (2 * i + 1))) = mb_width (mediaBox (doc ! i)) \<and>
      (p = 70 \<longrightarrow>
         mb_height (mediaBox (out ! (2 * i))) = 0.30 * mb_height (mediaBox (doc ! i)) \<and>
         mb_height (mediaBox (out ! (2 * i + 1))) = 0.70 * mb_height (mediaBox (doc ! i)))"
    if "i < length doc" for i
    using nth [OF that]
    by (simp add: splitPage_Horizontal setMediaBox_def box_bottom_def box_top_def algebra_simps)
  from out len pages show ?thesis by blast
qed

theorem splitPdfDocument_horizontal_witness:
  "\<exists>out. splitPdfDocument sample_load sample_file Horizontal 70 = Some out \<and>
     length out = 8 \<and>
     box_bottom (out ! 0) = 560 \<and> box_top (out ! 0) = 800 \<and>
     mb_height (mediaBox (out ! 0)) = 240 \<and>
     box_bottom (out ! 1) = 0 \<and> box_top (out ! 1) = 560 \<and>
     mb_height (mediaBox (out ! 1)) = 560 \<and>
     mb_width (mediaBox (out ! 0)) = 600 \<and> mb_width (mediaBox (out ! 1)) = 600"
proof -
  have l: "sample_load sample_file = Some sample_doc" by (simp add: sample_load_def)
  have p: "(1::real) \<le> 70" "(70::real) \<le> 99" by simp_all
  from splitPdfDocument_horizontal [of sample_load sample_file sample_doc 70] l p
  obtain out where out: "splitPdfDocument sample_load sample_file Horizontal 70 = Some out"
    and len: "length out = 2 * length sample_doc"
    and nth: "\<forall>i < length sample_doc.
              page_content (out ! (2 * i)) = page_content (sample_doc ! i) \<and>
              page_content (out ! (2 * i + 1)) = page_content (sample_doc ! i) \<and>
              box_bottom (out ! (2 * i)) = (70 / 100) * mb_height (mediaBox (sample_doc ! i)) \<and>
              box_top (out ! (2 * i)) = mb_height (mediaBox (sample_doc ! i)) \<and>
              mb_height (mediaBox (out ! (2 * i))) =
                mb_height (mediaBox (sample_doc ! i))
                  - (70 / 100) * mb_height (mediaBox (sample_doc ! i)) \<and>
              box_bottom (out ! (2 * i + 1)) = 0 \<and>
              box_top (out ! (2 * i + 1)) = (70 / 100) * mb_height (mediaBox (sample_doc ! i)) \<and>
              mb_height (mediaBox (out ! (2 * i + 1))) =
                (70 / 100) * mb_height (mediaBox (sample_doc ! i)) \<and>
              mb_width (mediaBox (out ! (2 * i))) = mb_width (mediaBox (sample_doc ! i)) \<and>
              mb_width (mediaBox (out ! (2 * i + 1))) = mb_width (mediaBox (sample_doc ! i)) \<and>
              ((70::real) = 70 \<longrightarrow>
                 mb_height (mediaBox (out ! (2 * i))) =
                   0.30 * mb_height (mediaBox (sample_doc ! i)) \<and>
                 mb_height (mediaBox (out ! (2 * i + 1))) =
                   0.70 * mb_height (mediaBox (sample_doc ! i)))"
    by blast
  have i0: "(0::nat) < length sample_doc" by (simp add: sample_doc_def)
  from nth [rule_format, OF i0] have a: "box_bottom (out ! 0) = 560 \<and> box_top (out ! 0) = 800 \<and>
     mb_height (mediaBox (out ! 0)) = 240 \<and>
     box_bottom (out ! 1) = 0 \<and> box_top (out ! 1) = 560 \<and>
     mb_height (mediaBox (out ! 1)) = 560 \<and>
     mb_width (mediaBox (out ! 0)) = 600 \<and> mb_width (mediaBox (out ! 1)) = 600"
    by (simp add: sample_doc_def sample_page_def)
  from len have "length out = 8" by (simp add: sample_doc_def)
  with out a show ?thesis by blast
qed

section \<open>Properties of the drag translator\<close>

lemma round_clamp: "round (max 1 (min 99 (v::real))) = max 1 (min 99 (round v))"
proof -
  consider "v \<le> 1" | "1 < v" "v < 99" | "99 \<le> v" by linarith
  then show ?thesis
  proof cases
    case 1
    with round_mono [of v 1] show ?thesis by (simp add: max_def min_def)
  next
    case 2
    with round_mono [of 1 v] round_mono [of v 99] show ?thesis by (simp add: max_def min_def)
  next
    case 3
    with round_mono [of 99 v] show ?thesis by (simp add: max_def min_def)
  qed
qed

text \<open>
  Claim C3. For pointer coordinates \<open>(clientX, clientY)\<close> and an overlay rectangle of
  positive width and height, the drag translator calls the percentage-change callback
  with the value the specification describes: the fraction
  \<open>(clientX - rect.left) / rect.width\<close> for Vertical, \<open>(clientY - rect.top) / rect.height\<close>
  for Horizontal, times 100, rounded to the nearest integer and clamped to \<open>[1, 99]\<close>.
  The reported value is an integer in \<open>[1, 99]\<close> wherever the pointer is.
\<close>

theorem calculatePercentage_spec:
  assumes "0 < rect_width rect" and "0 < rect_height rect"
  shows "calculatePercentage (Some rect) orientation clientX clientY =
           Some (Finite (of_int (spec_percentage rect orientation clientX clientY))) \<and>
         1 \<le> spec_percentage rect orientation clientX clientY \<and>
         spec_percentage rect orientation clientX clientY \<le> 99"
proof -
  have "calculatePercentage (Some rect) orientation clientX clientY =
          Some (Finite (of_int (spec_percentage rect orientation clientX clientY)))"
    using assms
    by (cases orientation)
       (simp_all add: calculatePercentage_def spec_percentage_def spec_fraction_def
          js_div_def round_clamp)
  moreover have "1 \<le> spec_percentage rect orientation clientX clientY"
    by (simp add: spec_percentage_def)
  moreover have "spec_percentage rect orientation clientX clientY \<le> 99"
    by (simp add: spec_percentage_def)
  ultimately show ?thesis by blast
qed

theorem calculatePercentage_spec_witness:
  "calculatePercentage (Some sample_rect) Vertical 220 0 = Some (Finite 30) \<and>
   calculatePercentage (Some sample_rect) Vertical 1000 0 = Some (Finite 99) \<and>
   calculatePercentage (Some sample_rect) Horizontal 0 (- 500) = Some (Finite 1)"
proof -
  have w: "0 < rect_width sample_rect" and h: "0 < rect_height sample_rect"
    by (simp_all add: sample_rect_def)
  have a: "spec_percentage sample_rect Vertical 220 0 = 30"
    by (simp add: spec_percentage_def spec_fraction_def sample_rect_def)
  have "(1000 - 100) / 400 * 100 = (225::real)" by simp
  then have b: "spec_percentage sample_rect Vertical 1000 0 = 99"
    by (simp add: spec_percentage_def spec_fraction_def sample_rect_def)
  have "(- 500 - 50) / 300 * 100 \<le> (0::real)" by simp
  from round_mono [OF this] have c: "spec_percentage sample_rect Horizontal 0 (- 500) = 1"
    by (simp add: spec_percentage_def spec_fraction_def sample_rect_def)
  from calculatePercentage_spec [OF w h, of Vertical 220 0]
       calculatePercentage_spec [OF w h, of Vertical 1000 0]
       calculatePercentage_spec [OF w h, of Horizontal 0 "- 500"] a b c
  show ?thesis by simp
qed

section \<open>Properties of the application's file selection\<close>

text \<open>
  Claim C10. On a file selection, if the selected file's MIME type is not
  \<open>application/pdf\<close> an error message is set and the stored file and the split
  percentage stay as they were; if it is \<open>application/pdf\<close> the file is stored, the
  error and success messages are cleared, and the split percentage is reset to 50.
\<close>

theorem handleFileChange_frame:
  "(file_type f \<noteq> ''application/pdf'' \<longrightarrow>
      error (app_status (handleFileChange (Some (f # fs)) st)) =
        Some ''Please upload a valid PDF file.'' \<and>
      app_file (handleFileChange (Some (f # fs)) st) = app_file st \<and>
      app_percentage (handleFileChange (Some (f # fs)) st) = app_percentage st) \<and>
   (file_type f = ''application/pdf'' \<longrightarrow>
      app_file (handleFileChange (Some (f # fs)) st) = Some f \<and>
      error (app_status (handleFileChange (Some (f # fs)) st)) = None \<and>
      successMessage (app_status (handleFileChange (Some (f # fs)) st)) = None \<and>
      app_percentage (handleFileChange (Some (f # fs)) st) = Finite 50)"
  by (simp add: handleFileChange_def)

theorem handleFileChange_frame_witness:
  "error (app_status (handleFileChange (Some [textFile]) sample_app)) =
     Some ''Please upload a valid PDF file.'' \<and>
   app_file (handleFileChange (Some [textFile]) sample_app) = Some fileA \<and>
   app_percentage (handleFileChange (Some [textFile]) sample_app) = Finite 30 \<and>
   app_file (handleFileChange (Some [fileB]) sample_app) = Some fileB \<and>
   error (app_status (handleFileChange (Some [fileB]) sample_app)) = None \<and>
   successMessage (app_status (handleFileChange (Some [fileB]) sample_app)) = None \<and>
   app_percentage (handleFileChange (Some [fileB]) sample_app) = Finite 50"
proof -
  have t: "file_type textFile \<noteq> ''application/pdf''" by (simp add: textFile_def)
  have b: "file_type fileB = ''application/pdf''" by (simp add: fileB_def)
  from handleFileChange_frame [of textFile "[]" sample_app]
       handleFileChange_frame [of fileB "[]" sample_app] t b
  show ?thesis by (simp add: sample_app_def)
qed

section \<open>Properties of the page navigator\<close>

lemma currentPage_run_effects [simp]: "currentPage (run_effects old new) = currentPage new"
  by (simp add: run_effects_def render_effect_def render_cleanup_def set_task_def
        pageInput_effect_def Let_def split: option.splits)

lemma totalPages_run_effects [simp]: "totalPages (run_effects old new) = totalPages new"
  by (simp add: run_effects_def render_effect_def render_cleanup_def set_task_def
        pageInput_effect_def Let_def split: option.splits)

lemma pageInput_run_effects:
  "pageInput (run_effects old new) =
     (if currentPage new \<noteq> currentPage old then toString (currentPage new)
      else pageInput new)"
  by (simp add: run_effects_def render_effect_def render_cleanup_def set_task_def
        pageInput_effect_def Let_def split: option.splits)

lemma run_effects_same: "run_effects st st = st"
  by (simp add: run_effects_def)

lemma toString_1: "toString 1 = ''1''"
  by (simp add: toString_def nat_toString.simps digit_char_def)

lemma toString_10: "toString 10 = ''10''"
  by (simp add: toString_def nat_toString.simps digit_char_def)

lemma parseInt_15: "parseInt ''15'' = Some 15"
  by (simp add: parseInt_def is_js_space_def is_digit_def digits_value_def digit_val_def)

lemma parseInt_empty: "parseInt [] = None"
  by (simp add: parseInt_def)

text \<open>
  Claim C7. In a state with \<open>1 \<le> currentPage \<le> totalPages\<close>, Next Page at
  \<open>currentPage = totalPages\<close> and Previous Page at \<open>currentPage = 1\<close> leave the state
  as it is; otherwise Next adds exactly 1 to \<open>currentPage\<close> and Previous subtracts
  exactly 1.
\<close>

theorem prev_next_page:
  assumes "1 \<le> currentPage st" and "currentPage st \<le> totalPages st"
  shows "(currentPage st = totalPages st \<longrightarrow> step ClickNext st = st) \<and>
         (currentPage st \<noteq> totalPages st \<longrightarrow>
            currentPage (step ClickNext st) = currentPage st + 1) \<and>
         (currentPage st = 1 \<longrightarrow> step ClickPrev st = st) \<and>
         (currentPage st \<noteq> 1 \<longrightarrow> currentPage (step ClickPrev st) = currentPage st - 1)"
  using assms by (simp add: step_def handleNextPage_def handlePrevPage_def run_effects_same)

theorem prev_next_page_witness:
  "step ClickNext (sample_preview\<lparr>currentPage := 10\<rparr>) = sample_preview\<lparr>currentPage := 10\<rparr> \<and>
   currentPage (step ClickNext sample_preview) = 4 \<and>
   step ClickPrev (sample_preview\<lparr>currentPage := 1\<rparr>) = sample_preview\<lparr>currentPage := 1\<rparr> \<and>
   currentPage (step ClickPrev sample_preview) = 2"
proof -
  have a: "1 \<le> currentPage sample_preview \<and> currentPage sample_preview \<le> totalPages sample_preview"
    by (simp add: sample_preview_def)
  have b: "1 \<le> currentPage (sample_preview\<lparr>currentPage := 10\<rparr>) \<and>
           currentPage (sample_preview\<lparr>currentPage := 10\<rparr>)
             \<le> totalPages (sample_preview\<lparr>currentPage := 10\<rparr>)"
    by (simp add: sample_preview_def)
  have c: "1 \<le> currentPage (sample_preview\<lparr>currentPage := 1\<rparr>) \<and>
           currentPage (sample_preview\<lparr>currentPage := 1\<rparr>)
             \<le> totalPages (sample_preview\<lparr>currentPage := 1\<rparr>)"
    by (simp add: sample_preview_def)
  from prev_next_page [of sample_preview] a
  have "currentPage (step ClickNext sample_preview) = 4 \<and>
        currentPage (step ClickPrev sample_preview) = 2"
    by (simp add: sample_preview_def)
  moreover from prev_next_page [of "sample_preview\<lparr>currentPage := 10\<rparr>"] b
  have "step ClickNext (sample_preview\<lparr>currentPage := 10\<rparr>) = sample_preview\<lparr>currentPage := 10\<rparr>"
    by (simp add: sample_preview_def)
  moreover from prev_next_page [of "sample_preview\<lparr>currentPage := 1\<rparr>"] c
  have "step ClickPrev (sample_preview\<lparr>currentPage := 1\<rparr>) = sample_preview\<lparr>currentPage := 1\<rparr>"
    by (simp add: sample_preview_def)
  ultimately show ?thesis by blast
qed

text \<open>
  Claim C6. On a commit of the page input (blur or Enter): when the buffer does not
  parse as an integer, the buffer goes back to \<open>currentPage\<close>'s decimal string and
  \<open>currentPage\<close> stays; otherwise the parsed value is clamped into \<open>[1, totalPages]\<close>,
  \<open>currentPage\<close> becomes the clamped value and the buffer its decimal string. With
  \<open>totalPages = 10\<close> and the buffer \<open>15\<close> the commit gives \<open>currentPage = 10\<close> and
  the buffer \<open>10\<close>. The interval \<open>[1, totalPages]\<close> is the one of a loaded document,
  \<open>totalPages \<ge> 1\<close>.
\<close>

theorem page_input_commit:
  "(parseInt (pageInput st) = None \<longrightarrow>
      handlePageInputSubmit st = st\<lparr>pageInput := toString (currentPage st)\<rparr> \<and>
      currentPage (step PageInputCommit st) = currentPage st \<and>
      pageInput (step PageInputCommit st) = toString (currentPage st)) \<and>
   (\<forall>n. parseInt (pageInput st) = Some n \<longrightarrow>
      currentPage (step PageInputCommit st) = min (max n 1) (totalPages st) \<and>
      pageInput (step PageInputCommit st) = toString (min (max n 1) (totalPages st)) \<and>
      (1 \<le> totalPages st \<longrightarrow>
         1 \<le> currentPage (step PageInputCommit st) \<and>
         currentPage (step PageInputCommit st) \<le> totalPages st)) \<and>
   (totalPages st = 10 \<and> pageInput st = ''15'' \<longrightarrow>
      currentPage (step PageInputCommit st) = 10 \<and>
      pageInput (step PageInputCommit st) = ''10'')"
proof -
  have none: "handlePageInputSubmit st = st\<lparr>pageInput := toString (currentPage st)\<rparr> \<and>
      currentPage (step PageInputCommit st) = currentPage st \<and>
      pageInput (step PageInputCommit st) = toString (currentPage st)"
    if "parseInt (pageInput st) = None"
    using that by (simp add: step_def handlePageInputSubmit_def pageInput_run_effects)
  have some: "currentPage (step PageInputCommit st) = min (max n 1) (totalPages st) \<and>
      pageInput (step PageInputCommit st) = toString (min (max n 1) (totalPages st)) \<and>
      (1 \<le> totalPages st \<longrightarrow>
         1 \<le> currentPage (step PageInputCommit st) \<and>
         currentPage (step PageInputCommit st) \<le> totalPages st)"
    if "parseInt (pageInput st) = Some n" for n
    using that
    by (auto simp: step_def handlePageInputSubmit_def pageInput_run_effects Let_def
          min_def max_def)
  have example: "currentPage (step PageInputCommit st) = 10 \<and>
      pageInput (step PageInputCommit st) = ''10''"
    if "totalPages st = 10" and "pageInput st = ''15''"
    using that
    by (simp add: step_def handlePageInputSubmit_def pageInput_run_effects Let_def
          parseInt_15 toString_10)
  from none some example show ?thesis by blast
qed

theorem page_input_commit_witness:
  "currentPage (step PageInputCommit sample_preview) = 10 \<and>
   pageInput (step PageInputCommit sample_preview) = ''10'' \<and>
   currentPage (step PageInputCommit (sample_preview\<lparr>pageInput := []\<rparr>)) = 3 \<and>
   pageInput (step PageInputCommit (sample_preview\<lparr>pageInput := []\<rparr>)) = toString 3"
proof -
  have a: "parseInt (pageInput sample_preview) = Some 15" and "1 \<le> totalPages sample_preview"
    by (simp_all add: sample_preview_def parseInt_15)
  have b: "parseInt (pageInput (sample_preview\<lparr>pageInput := []\<rparr>)) = None"
    by (simp add: parseInt_empty)
  from page_input_commit [of sample_preview] a
  have "currentPage (step PageInputCommit sample_preview) = 10 \<and>
        pageInput (step PageInputCommit sample_preview) = ''10''"
    by (simp add: sample_preview_def toString_10)
  moreover from page_input_commit [of "sample_preview\<lparr>pageInput := []\<rparr>"] b
  have "currentPage (step PageInputCommit (sample_preview\<lparr>pageInput := []\<rparr>)) = 3 \<and>
        pageInput (step PageInputCommit (sample_preview\<lparr>pageInput := []\<rparr>)) = toString 3"
    by (simp add: sample_preview_def)
  ultimately show ?thesis by blast
qed

section \<open>Properties of the page-input buffer and of the loader\<close>

lemma digit_char_is_digit: "d < 10 \<Longrightarrow> is_digit (digit_char d)"
  unfolding is_digit_def digit_char_def by (rule nth_mem) simp

lemma nat_toString_digits: "digits_only (nat_toString n)"
proof (induction n rule: nat_toString.induct)
  case (1 n)
  show ?case
  proof (cases "n < 10")
    case True
    then show ?thesis
      by (simp add: nat_toString.simps [of n] digits_only_def digit_char_is_digit)
  next
    case False
    with "1" have "digits_only (nat_toString (n div 10))" by simp
    moreover have "is_digit (digit_char (n mod 10))" by (simp add: digit_char_is_digit)
    ultimately show ?thesis
      using False by (simp add: nat_toString.simps [of n] digits_only_def)
  qed
qed

lemma toString_digits: "0 \<le> i \<Longrightarrow> digits_only (toString i)"
  by (simp add: toString_def nat_toString_digits)

lemma page_state_ok_handle: "page_state_ok st \<Longrightarrow> page_state_ok (handle e st)"
proof (cases e)
  case (SetFile f)
  assume "page_state_ok st"
  with SetFile show ?thesis
    by (cases f)
       (simp_all add: page_state_ok_def file_effect_def file_effect_null_def loadPdf_start_def
          input_accepted_def digits_only_def is_digit_def)
next
  case (LoadSettled lid outcome)
  assume "page_state_ok st"
  with LoadSettled show ?thesis
    by (cases outcome) (simp_all add: page_state_ok_def loadPdf_settle_def)
next
  case (GetPageSettled rid)
  assume "page_state_ok st"
  with GetPageSettled show ?thesis
    by (simp add: page_state_ok_def renderPage_gotPage_def render_failed_def set_task_def
          Let_def split: option.splits prod.splits)
next
  case (RenderSettled rid ok)
  assume "page_state_ok st"
  with RenderSettled show ?thesis
    by (simp add: page_state_ok_def renderPage_rendered_def render_failed_def set_task_def
          Let_def split: option.splits)
next
  case ClickPrev
  assume "page_state_ok st"
  with ClickPrev show ?thesis by (simp add: page_state_ok_def handlePrevPage_def)
next
  case ClickNext
  assume "page_state_ok st"
  with ClickNext show ?thesis by (simp add: page_state_ok_def handleNextPage_def)
next
  case (PageInputChange val)
  assume "page_state_ok st"
  with PageInputChange show ?thesis
    by (auto simp: page_state_ok_def handlePageInputChange_def input_accepted_def)
next
  case PageInputCommit
  assume ok: "page_state_ok st"
  show ?thesis
  proof (cases "parseInt (pageInput st)")
    case None
    with ok PageInputCommit show ?thesis
      by (simp add: page_state_ok_def handlePageInputSubmit_def input_accepted_def
            toString_digits)
  next
    case (Some n)
    let ?c = "if (if n < 1 then 1 else n) > totalPages st then totalPages st
              else (if n < 1 then 1 else n)"
    from ok have "0 \<le> ?c" by (simp add: page_state_ok_def)
    then have "digits_only (toString ?c)" by (rule toString_digits)
    with ok Some PageInputCommit \<open>0 \<le> ?c\<close> show ?thesis
      by (simp add: page_state_ok_def handlePageInputSubmit_def input_accepted_def Let_def)
  qed
qed

lemma page_state_ok_run_effects:
  "page_state_ok new \<Longrightarrow> page_state_ok (run_effects old new)"
  by (simp add: page_state_ok_def pageInput_run_effects input_accepted_def toString_digits)

lemma page_state_ok_step: "page_state_ok st \<Longrightarrow> page_state_ok (step e st)"
  by (simp add: step_def page_state_ok_handle page_state_ok_run_effects)

lemma page_state_ok_run: "page_state_ok st \<Longrightarrow> page_state_ok (run es st)"
  by (induction es arbitrary: st) (simp_all add: page_state_ok_step)

lemma page_state_ok_mount: "page_state_ok (mount f cv cw)"
  by (cases f)
     (simp_all add: page_state_ok_def mount_def initial_def file_effect_def
        file_effect_null_def loadPdf_start_def pageInput_effect_def render_effect_def
        input_accepted_def toString_digits split: option.splits)

text \<open>
  Claim C8. The page-input buffer only ever holds the empty string or a string of
  decimal digits: this holds after every sequence of events on a mounted preview. An
  edit whose new value is neither empty nor all digits is rejected and leaves the state
  as it is, and whenever an event changes \<open>currentPage\<close> the buffer afterwards is the
  decimal string of the new \<open>currentPage\<close>.
\<close>

theorem page_input_buffer_invariant:
  "input_accepted (pageInput (run es (mount f cv cw))) \<and>
   (val \<noteq> [] \<and> \<not> list_all is_digit val \<longrightarrow> step (PageInputChange val) st = st) \<and>
   (currentPage (step e st) \<noteq> currentPage st \<longrightarrow>
      pageInput (step e st) = toString (currentPage (step e st)))"
proof -
  have "page_state_ok (run es (mount f cv cw))"
    by (rule page_state_ok_run) (rule page_state_ok_mount)
  then have a: "input_accepted (pageInput (run es (mount f cv cw)))"
    by (simp add: page_state_ok_def)
  have b: "step (PageInputChange val) st = st" if "val \<noteq> []" and "\<not> list_all is_digit val"
    using that by (simp add: step_def handlePageInputChange_def digits_only_def run_effects_same)
  have c: "pageInput (step e st) = toString (currentPage (step e st))"
    if "currentPage (step e st) \<noteq> currentPage st"
    using that by (simp add: step_def pageInput_run_effects)
  from a b c show ?thesis by blast
qed

theorem page_input_buffer_invariant_witness:
  "input_accepted
     (pageInput (run [LoadSettled 0 (Some docA), ClickNext, PageInputChange ''2x'']
                   (mount (Some fileA) (Some sample_canvas) (Some 800)))) \<and>
   step (PageInputChange ''2x'') sample_preview = sample_preview \<and>
   pageInput (step ClickNext sample_preview) = toString 4"
proof -
  have v: "''2x'' \<noteq> [] \<and> \<not> list_all is_digit ''2x''" by (simp add: is_digit_def)
  have n: "currentPage (step ClickNext sample_preview) \<noteq> currentPage sample_preview"
    by (simp add: step_def handleNextPage_def sample_preview_def)
  have n4: "currentPage (step ClickNext sample_preview) = 4"
    by (simp add: step_def handleNextPage_def sample_preview_def)
  from page_input_buffer_invariant
         [of "[LoadSettled 0 (Some docA), ClickNext, PageInputChange ''2x'']" "Some fileA"
             "Some sample_canvas" "Some 800" "''2x''" sample_preview ClickNext] v n n4
  show ?thesis by simp
qed

text \<open>
  Claim C9. Given a null source file the loader clears the document handle, sets
  \<open>totalPages = 0\<close>, \<open>currentPage = 1\<close> and the page-input text to \<open>1\<close>, clears the
  raster surface and sets its height to zero, and sets no error.
\<close>

theorem null_file_clears:
  "pdfDoc (step (SetFile None) st) = None \<and>
   totalPages (step (SetFile None) st) = 0 \<and>
   currentPage (step (SetFile None) st) = 1 \<and>
   pageInput (step (SetFile None) st) = ''1'' \<and>
   preview_error (step (SetFile None) st) = preview_error st \<and>
   (\<forall>c. canvasRef st = Some c \<longrightarrow>
      canvasRef (step (SetFile None) st) = Some (c\<lparr>canvas_height := 0, shown := None\<rparr>)) \<and>
   (canvasRef st = None \<longrightarrow> canvasRef (step (SetFile None) st) = None)"
  by (simp add: step_def file_effect_def file_effect_null_def run_effects_def
        pageInput_effect_def render_effect_def render_cleanup_def set_task_def
        clearRect_all_def set_height_def toString_1 Let_def split: option.splits)

theorem null_file_clears_witness:
  "pdfDoc (step (SetFile None) sample_preview) = None \<and>
   totalPages (step (SetFile None) sample_preview) = 0 \<and>
   currentPage (step (SetFile None) sample_preview) = 1 \<and>
   pageInput (step (SetFile None) sample_preview) = ''1'' \<and>
   preview_error (step (SetFile None) sample_preview) = None \<and>
   canvasRef (step (SetFile None) sample_preview) =
     Some \<lparr>canvas_width = 300, canvas_height = 0, has_context = True, shown = None\<rparr>"
proof -
  have c: "canvasRef sample_preview = Some sample_canvas" by (simp add: sample_preview_def)
  from null_file_clears [of sample_preview] c show ?thesis
    by (simp add: sample_preview_def sample_canvas_def)
qed

section \<open>Superseded loads and renders\<close>

lemma cancelled_render_stops_at_getPage:
  assumes "rid < length (renders st)" and "isCancelled (renders st ! rid)"
  shows "canvasRef (renderPage_gotPage rid st) = canvasRef st \<and>
         preview_error (renderPage_gotPage rid st) = preview_error st \<and>
         rt_phase (renders (renderPage_gotPage rid st) ! rid) = Finished"
  using assms
  by (simp add: renderPage_gotPage_def render_failed_def set_task_def Let_def
        split: option.splits prod.splits)

lemma pdfDoc_run_effects [simp]: "pdfDoc (run_effects old new) = pdfDoc new"
  by (simp add: run_effects_def render_effect_def render_cleanup_def set_task_def
        pageInput_effect_def Let_def split: option.splits)

text \<open>
  Claim C5. If \<open>currentPage\<close> or the document handle changes before a render
  completes, the stale render's result is not applied to the canvas: a flag of the
  call is checked before each state-affecting step. The flag is read once, when
  \<open>getPage\<close> settles (\<open>cancelled_render_stops_at_getPage\<close>); the render task started
  after that is neither cancelled nor guarded. With Next clicked while the task of
  page 1 runs, \<open>currentPage\<close> is 2, the flag of the first call is set, and the canvas
  receives page 1.
\<close>

theorem stale_render_paints:
  "currentPage next_while_rendering = 2 \<and>
   pageInput next_while_rendering = ''2'' \<and>
   rt_page (renders next_while_rendering ! 0) = 1 \<and>
   isCancelled (renders next_while_rendering ! 0) \<and>
   cleanup next_while_rendering = Some 1 \<and>
   canvasRef next_while_rendering =
     Some \<lparr>canvas_width = 768, canvas_height = 1024, has_context = True,
           shown = Some (docA, 1)\<rparr>"
  by (simp add: next_while_rendering_def mount_def initial_def step_def run_effects_def
        file_effect_def loadPdf_start_def loadPdf_settle_def pageInput_effect_def
        render_effect_def render_cleanup_def set_task_def renderPage_gotPage_def
        renderPage_rendered_def getPage_def handleNextPage_def set_height_def set_width_def
        toString_def nat_toString.simps digit_char_def docA_def fileA_def numPages_def
        sample_canvas_def Let_def)

section \<open>Loads superseded by another file\<close>

text \<open>
  Taken alone the preview commits every load that settles: \<open>loadPdf\<close> has no flag and
  its effect returns no cleanup.
\<close>

lemma load_result_always_committed:
  assumes "lid < length (loads st)" and "\<not> load_settled (loads st ! lid)"
  shows "pdfDoc (step (LoadSettled lid (Some doc)) st) = Some doc \<and>
         totalPages (step (LoadSettled lid (Some doc)) st) = int (numPages doc) \<and>
         currentPage (step (LoadSettled lid (Some doc)) st) = 1"
  using assms by (simp add: step_def loadPdf_settle_def)

lemma file_prop_run_effects [simp]: "file_prop (run_effects old new) = file_prop new"
  by (simp add: run_effects_def render_effect_def render_cleanup_def set_task_def
        pageInput_effect_def Let_def split: option.splits)

lemma loads_run_effects [simp]: "loads (run_effects old new) = loads new"
  by (simp add: run_effects_def render_effect_def render_cleanup_def set_task_def
        pageInput_effect_def Let_def split: option.splits)

lemma instance_ok_run_effects:
  "instance_ok decode f new \<Longrightarrow> instance_ok decode f (run_effects old new)"
  by (simp add: instance_ok_def split: option.splits)

lemma instance_ok_mount: "instance_ok decode f (mount (Some f) cv cw)"
  by (simp add: instance_ok_def mount_def initial_def file_effect_def loadPdf_start_def
        pageInput_effect_def render_effect_def)

lemma instance_ok_handle:
  assumes "instance_ok decode f v" and "possible decode v e"
  shows "instance_ok decode f (handle e v)"
proof (cases e)
  case (SetFile g)
  with assms(2) show ?thesis by simp
next
  case (LoadSettled lid outcome)
  with assms(2) have lid: "lid < length (loads v)"
    and outcome: "outcome = decode (load_file (loads v ! lid))" by simp_all
  from assms(1) lid have "load_file (loads v ! lid) = f"
    by (simp add: instance_ok_def list_all_length)
  with outcome have o: "outcome = decode f" by simp
  show ?thesis
  proof (cases "load_settled (loads v ! lid)")
    case True
    with LoadSettled assms(1) show ?thesis by simp
  next
    case False
    with LoadSettled assms(1) lid o show ?thesis
      by (cases "decode f")
         (auto simp: instance_ok_def loadPdf_settle_def list_all_length nth_list_update
            split: option.splits)
  qed
next
  case (GetPageSettled rid)
  with assms(1) show ?thesis
    by (simp add: instance_ok_def renderPage_gotPage_def render_failed_def set_task_def
          Let_def split: option.splits prod.splits)
next
  case (RenderSettled rid ok)
  with assms(1) show ?thesis
    by (simp add: instance_ok_def renderPage_rendered_def render_failed_def set_task_def
          Let_def split: option.splits)
next
  case ClickPrev
  with assms(1) show ?thesis
    by (simp add: instance_ok_def handlePrevPage_def split: option.splits)
next
  case ClickNext
  with assms(1) show ?thesis
    by (simp add: instance_ok_def handleNextPage_def split: option.splits)
next
  case (PageInputChange val)
  with assms(1) show ?thesis
    by (simp add: instance_ok_def handlePageInputChange_def split: option.splits)
next
  case PageInputCommit
  with assms(1) show ?thesis
    by (simp add: instance_ok_def handlePageInputSubmit_def Let_def split: option.splits)
qed

lemma instance_ok_step:
  "instance_ok decode f v \<Longrightarrow> possible decode v e \<Longrightarrow> instance_ok decode f (step e v)"
  by (simp add: step_def instance_ok_handle instance_ok_run_effects)

lemma app_file_handleFileChange:
  "app_file (handleFileChange files a) = None \<longleftrightarrow>
     app_file a = None \<and>
     (case files of
        None \<Rightarrow> True
      | Some [] \<Rightarrow> True
      | Some (g # gs) \<Rightarrow> file_type g \<noteq> ''application/pdf'')"
  by (simp add: handleFileChange_def split: option.splits list.splits)

lemma program_ok_pstep:
  assumes "program_ok decode P"
  shows "program_ok decode (pstep decode ev P)"
proof (cases ev)
  case (ChooseFiles files cv cw)
  show ?thesis
  proof (cases "app_file (app P)")
    case (Some g)
    with ChooseFiles assms show ?thesis by simp
  next
    case None
    with ChooseFiles show ?thesis
      by (cases "app_file (handleFileChange files (app P))")
         (simp_all add: program_ok_def instance_ok_mount Let_def)
  qed
next
  case RemoveFile
  with assms show ?thesis by (simp add: program_ok_def split: option.splits)
next
  case (Preview e)
  with assms show ?thesis
    by (auto simp: program_ok_def instance_ok_step split: option.splits)
next
  case (RetiredLoadSettled k outcome)
  with assms show ?thesis by (simp add: program_ok_def split: option.splits)
next
  case (SetOrientation orientation)
  with assms show ?thesis by (simp add: program_ok_def split: option.splits)
next
  case (SetPercentage n)
  with assms show ?thesis by (simp add: program_ok_def split: option.splits)
next
  case (SetStatus s)
  with assms show ?thesis by (simp add: program_ok_def split: option.splits)
qed

lemma program_ok_prun: "program_ok decode P \<Longrightarrow> program_ok decode (prun decode evs P)"
  by (induction evs arbitrary: P) (simp_all add: program_ok_pstep)

lemma program_ok_initial: "program_ok decode initial_program"
  by (simp add: program_ok_def initial_program_def)

text \<open>
  Claim C4. When a new file is supplied before an earlier file's load resolves, only
  the load result of the most recently selected file is committed to the displayed
  \<open>pdfDoc\<close>, \<open>totalPages\<close> and \<open>currentPage\<close>; the result of a superseded load is
  discarded and never applied. After every sequence of events of the application a
  preview is mounted exactly while a file is chosen, the file it was given is that
  file, every load it has started reads that file, and the document it shows, if any,
  is the one decoded from that file, with its page count. The settling of a load left
  behind by an earlier file, whatever its result, changes nothing of the application's
  state or of the mounted preview.
\<close>

theorem only_latest_file_commits:
  "(mounted (prun decode evs initial_program) = None \<longleftrightarrow>
      app_file (app (prun decode evs initial_program)) = None) \<and>
   (\<forall>v f. mounted (prun decode evs initial_program) = Some v \<and>
          app_file (app (prun decode evs initial_program)) = Some f \<longrightarrow>
      file_prop v = Some f \<and>
      (\<forall>t \<in> set (loads v). load_file t = f) \<and>
      (pdfDoc v = None \<longrightarrow> totalPages v = 0) \<and>
      (\<forall>d. pdfDoc v = Some d \<longrightarrow> decode f = Some d \<and> totalPages v = int (numPages d))) \<and>
   mounted (pstep decode (RetiredLoadSettled k outcome) P) = mounted P \<and>
   app (pstep decode (RetiredLoadSettled k outcome) P) = app P"
proof -
  let ?P = "prun decode evs initial_program"
  have ok: "program_ok decode ?P"
    by (rule program_ok_prun) (rule program_ok_initial)
  then have a: "mounted ?P = None \<longleftrightarrow> app_file (app ?P) = None"
    by (auto simp: program_ok_def split: option.splits)
  have b: "file_prop v = Some f \<and>
      (\<forall>t \<in> set (loads v). load_file t = f) \<and>
      (pdfDoc v = None \<longrightarrow> totalPages v = 0) \<and>
      (\<forall>d. pdfDoc v = Some d \<longrightarrow> decode f = Some d \<and> totalPages v = int (numPages d))"
    if "mounted ?P = Some v" and "app_file (app ?P) = Some f" for v f
    using ok that by (auto simp: program_ok_def instance_ok_def list_all_iff)
  have c: "mounted (pstep decode (RetiredLoadSettled k outcome) P) = mounted P \<and>
           app (pstep decode (RetiredLoadSettled k outcome) P) = app P"
    by simp
  from a b c show ?thesis by blast
qed

theorem only_latest_file_commits_witness:
  "(\<exists>v. mounted (prun sample_decode replace_session initial_program) = Some v \<and>
       app_file (app (prun sample_decode replace_session initial_program)) = Some fileB \<and>
       file_prop v = Some fileB \<and>
       (\<forall>t \<in> set (loads v). load_file t = fileB) \<and>
       pdfDoc v = Some docB \<and> totalPages v = 2 \<and>
       sample_decode fileB = Some docB \<and>
       load_file (retired (prun sample_decode replace_session initial_program) ! 0) = fileA \<and>
       load_settled (retired (prun sample_decode replace_session initial_program) ! 0)) \<and>
   (\<exists>u. mounted (prun sample_decode (take 4 replace_session) initial_program) = Some u \<and>
       file_prop u = Some fileB \<and> pdfDoc u = None \<and> totalPages u = 0) \<and>
   mounted (prun sample_decode (take 2 replace_session) initial_program) = None"
proof -
  let ?P = "prun sample_decode replace_session initial_program"
  let ?Q = "prun sample_decode (take 4 replace_session) initial_program"
  let ?R = "prun sample_decode (take 2 replace_session) initial_program"
  have ne: "fileA \<noteq> fileB" by (simp add: fileA_def fileB_def)
  have ev: "\<exists>v. mounted ?P = Some v \<and> pdfDoc v = Some docB"
    and f: "app_file (app ?P) = Some fileB"
    and r: "load_file (retired ?P ! 0) = fileA \<and> load_settled (retired ?P ! 0)"
    and evq: "\<exists>u. mounted ?Q = Some u \<and> pdfDoc u = None"
    and fq: "app_file (app ?Q) = Some fileB"
    and fr: "app_file (app ?R) = None"
    using ne
    by (simp_all add: replace_session_def initial_program_def handleFileChange_def
          sample_decode_def mount_def initial_def step_def run_effects_def file_effect_def
          loadPdf_start_def loadPdf_settle_def pageInput_effect_def render_effect_def
          render_cleanup_def set_task_def toString_1 fileA_def fileB_def Let_def)
  from ev obtain v where v: "mounted ?P = Some v" and d: "pdfDoc v = Some docB" by blast
  from only_latest_file_commits [of sample_decode replace_session 0 "Some docA" ?P] v f d
  have "file_prop v = Some fileB \<and> (\<forall>t \<in> set (loads v). load_file t = fileB) \<and>
        sample_decode fileB = Some docB \<and> totalPages v = int (numPages docB)"
    by blast
  moreover have "int (numPages docB) = 2" by (simp add: numPages_def docB_def)
  ultimately have one: "\<exists>v. mounted ?P = Some v \<and> app_file (app ?P) = Some fileB \<and>
       file_prop v = Some fileB \<and> (\<forall>t \<in> set (loads v). load_file t = fileB) \<and>
       pdfDoc v = Some docB \<and> totalPages v = 2 \<and> sample_decode fileB = Some docB \<and>
       load_file (retired ?P ! 0) = fileA \<and> load_settled (retired ?P ! 0)"
    using v f d r by auto
  from evq obtain u where u: "mounted ?Q = Some u" and n: "pdfDoc u = None" by blast
  from only_latest_file_commits [of sample_decode "take 4 replace_session" 0 "Some docA" ?Q]
       u fq n
  have "file_prop u = Some fileB \<and> totalPages u = 0" by blast
  with u n have two: "\<exists>u. mounted ?Q = Some u \<and> file_prop u = Some fileB \<and>
       pdfDoc u = None \<and> totalPages u = 0"
    by blast
  from only_latest_file_commits [of sample_decode "take 2 replace_session" 0 "Some docA" ?R] fr
  have three: "mounted ?R = None" by blast
  from one two three show ?thesis by blast
qed

end
